theory Spec2Isabelle
  imports Main "HOL-Library.Word"
begin

section \<open>JavaScript values used by page-refresh.js\<close>

subsection \<open>Strings\<close>

text \<open>
  A JavaScript string is a sequence of 16-bit code units; \<open>length\<close> counts code units.
  \<open>js\<close> writes an ASCII literal of the source as such a sequence.
\<close>

type_synonym jsstring = "16 word list"

definition js :: "string \<Rightarrow> jsstring" where
  "js s = map (\<lambda>c. of_nat (of_char c)) s"

text \<open>
  \<open>String.prototype.substring(start, end)\<close> for non-negative integer arguments: both
  are clamped to the length and swapped when \<open>start > end\<close>.
\<close>

definition substring :: "nat \<Rightarrow> nat \<Rightarrow> jsstring \<Rightarrow> jsstring" where
  "substring from to s =
     (let a = min from (length s); b = min to (length s)
      in take (max a b - min a b) (drop (min a b) s))"

text \<open>\<open>String.prototype.padStart(n, '0')\<close>.\<close>

definition padStart0 :: "nat \<Rightarrow> jsstring \<Rightarrow> jsstring" where
  "padStart0 n s = replicate (n - length s) (0x30 :: 16 word) @ s"

subsection \<open>Numbers\<close>

text \<open>
  Every Number this program computes is NaN, an infinity, or an integer-valued double
  (results of \<open>parseInt\<close>, a product by 1000, a difference of two time values).
  \<open>Finite n\<close> is the double whose mathematical value is the integer \<open>n\<close>. The two zeros
  of JavaScript are identified: the comparisons, \<open>toString\<close>, \<open>setHours\<close> and the
  product used here do not tell them apart.
\<close>

datatype number = NaN | Finite int | PosInf | NegInf

text \<open>Number of binary digits of a natural number.\<close>

fun bitlen :: "nat \<Rightarrow> nat" where
  "bitlen n = (if n = 0 then 0 else Suc (bitlen (n div 2)))"

declare bitlen.simps [simp del]

text \<open>
  Rounding of a natural number to a 53-bit significand, to nearest, ties to even
  (IEEE 754 binary64 with the exponent range left open).
\<close>

definition roundNat :: "nat \<Rightarrow> nat" where
  "roundNat n =
     (if n < 2 ^ 53 then n
      else let e = bitlen n - 53; q = n div 2 ^ e; r = n mod 2 ^ e; h = 2 ^ (e - 1)
           in (if h < r \<or> (r = h \<and> odd q) then q + 1 else q) * 2 ^ e)"

text \<open>
  The Number value of a mathematical integer: rounded as above, and an infinity once
  the rounded magnitude reaches \<open>2 ^ 1024\<close>.
\<close>

definition toNumber :: "int \<Rightarrow> number" where
  "toNumber x =
     (let m = roundNat (nat \<bar>x\<bar>)
      in if 2 ^ 1024 \<le> m then (if x < 0 then NegInf else PosInf)
         else Finite (if x < 0 then - int m else int m))"

text \<open>\<open>isNaN\<close>, and the relational operators on Numbers: any comparison with NaN is false.\<close>

definition isNaN :: "number \<Rightarrow> bool" where
  "isNaN x \<longleftrightarrow> x = NaN"

fun num_less :: "number \<Rightarrow> number \<Rightarrow> bool" where
  "num_less NaN _ = False"
| "num_less _ NaN = False"
| "num_less (Finite a) (Finite b) = (a < b)"
| "num_less (Finite a) PosInf = True"
| "num_less (Finite a) NegInf = False"
| "num_less PosInf _ = False"
| "num_less NegInf NegInf = False"
| "num_less NegInf _ = True"

definition num_le :: "number \<Rightarrow> number \<Rightarrow> bool" where
  "num_le x y \<longleftrightarrow> x \<noteq> NaN \<and> y \<noteq> NaN \<and> (x = y \<or> num_less x y)"

definition num_ge :: "number \<Rightarrow> number \<Rightarrow> bool" where
  "num_ge x y \<longleftrightarrow> num_le y x"

text \<open>The product of two Numbers of this kind (\<open>seconds * 1000\<close> in the source).\<close>

fun num_sgn :: "number \<Rightarrow> int" where
  "num_sgn NaN = 0"
| "num_sgn (Finite a) = sgn a"
| "num_sgn PosInf = 1"
| "num_sgn NegInf = - 1"

fun num_mult :: "number \<Rightarrow> number \<Rightarrow> number" where
  "num_mult NaN _ = NaN"
| "num_mult _ NaN = NaN"
| "num_mult (Finite a) (Finite b) = toNumber (a * b)"
| "num_mult x y =
     (if num_sgn x * num_sgn y = 0 then NaN
      else if 0 < num_sgn x * num_sgn y then PosInf else NegInf)"

subsection \<open>parseInt with no radix argument\<close>

text \<open>White space and line terminators that \<open>parseInt\<close> skips at the start.\<close>

definition isWhiteSpace :: "16 word \<Rightarrow> bool" where
  "isWhiteSpace c \<longleftrightarrow>
     c \<in> {0x0009, 0x000A, 0x000B, 0x000C, 0x000D, 0x0020, 0x00A0, 0x1680,
          0x2028, 0x2029, 0x202F, 0x205F, 0x3000, 0xFEFF}
     \<or> (0x2000 \<le> c \<and> c \<le> 0x200A)"

text \<open>The value of a code unit as a digit: \<open>0-9\<close>, \<open>a-z\<close>, \<open>A-Z\<close>.\<close>

definition digitValue :: "16 word \<Rightarrow> nat option" where
  "digitValue c =
     (if 0x30 \<le> c \<and> c \<le> 0x39 then Some (unat c - 0x30)
      else if 0x61 \<le> c \<and> c \<le> 0x7A then Some (unat c - 0x61 + 10)
      else if 0x41 \<le> c \<and> c \<le> 0x5A then Some (unat c - 0x41 + 10)
      else None)"

definition isRadixDigit :: "nat \<Rightarrow> 16 word \<Rightarrow> bool" where
  "isRadixDigit R c = (case digitValue c of Some d \<Rightarrow> d < R | None \<Rightarrow> False)"

definition digitsValue :: "nat \<Rightarrow> jsstring \<Rightarrow> nat" where
  "digitsValue R Z = foldl (\<lambda>a c. a * R + (case digitValue c of Some d \<Rightarrow> d | None \<Rightarrow> 0)) 0 Z"

text \<open>An optional sign: whether it is \<open>-\<close>, and the rest of the string.\<close>

fun stripSign :: "jsstring \<Rightarrow> bool \<times> jsstring" where
  "stripSign [] = (False, [])"
| "stripSign (c # cs) =
     (if c = 0x2D then (True, cs) else if c = 0x2B then (False, cs) else (False, c # cs))"

text \<open>The prefix \<open>0x\<close> or \<open>0X\<close> selects radix 16; the radix is 10 otherwise.\<close>

fun stripPrefix :: "jsstring \<Rightarrow> nat \<times> jsstring" where
  "stripPrefix (c # d # cs) =
     (if c = 0x30 \<and> (d = 0x78 \<or> d = 0x58) then (16, cs) else (10, c # d # cs))"
| "stripPrefix cs = (10, cs)"

text \<open>
  \<open>parseInt(string)\<close>: skip leading white space, read a sign and a radix prefix, take the
  longest run of digits of the radix; no digit gives NaN. The standard lets an
  implementation approximate a decimal numeral after its 20th significant digit; the
  model rounds the exact value.
\<close>

definition parseInt :: "jsstring \<Rightarrow> number" where
  "parseInt inputString =
     (let (neg, S) = stripSign (dropWhile isWhiteSpace inputString);
          (R, S') = stripPrefix S;
          Z = takeWhile (isRadixDigit R) S'
      in if Z = [] then NaN
         else toNumber (if neg then - int (digitsValue R Z) else int (digitsValue R Z)))"

subsection \<open>Number to string\<close>

definition digitChar :: "nat \<Rightarrow> 16 word" where
  "digitChar d = of_nat (0x30 + d)"

text \<open>The decimal digits of a natural number, most significant first.\<close>

fun digitsOf :: "nat \<Rightarrow> jsstring" where
  "digitsOf n = (if n < 10 then [digitChar n] else digitsOf (n div 10) @ [digitChar (n mod 10)])"

declare digitsOf.simps [simp del]

definition numDigits :: "nat \<Rightarrow> nat" where
  "numDigits n = length (digitsOf n)"

text \<open>
  \<open>Number::toString\<close> writes a finite non-zero \<open>x\<close> from integers \<open>n\<close>, \<open>k\<close>, \<open>s\<close> with
  \<open>10 ^ (k - 1) \<le> s < 10 ^ k\<close>, the Number value of \<open>s * 10 ^ (n - k)\<close> being \<open>x\<close>, and \<open>k\<close>
  as small as possible. \<open>reprsAt x k\<close> lists the pairs \<open>(s, n)\<close> for one \<open>k\<close>: for each
  \<open>n\<close> the two multiples of \<open>10 ^ (n - k)\<close> next to \<open>x\<close> are the only ones that can be
  closest to it.
\<close>

definition reprsAt :: "nat \<Rightarrow> nat \<Rightarrow> (nat \<times> nat) list" where
  "reprsAt x k =
     [(s, n). n \<leftarrow> [numDigits x - 1, numDigits x, numDigits x + 1], k \<le> n,
              s \<leftarrow> [x div 10 ^ (n - k), x div 10 ^ (n - k) + 1],
              10 ^ (k - 1) \<le> s, s < 10 ^ k, roundNat (s * 10 ^ (n - k)) = x]"

text \<open>Among several pairs the one closest to \<open>x\<close> is taken, an even \<open>s\<close> on a tie.\<close>

definition reprDist :: "nat \<Rightarrow> nat \<Rightarrow> nat \<times> nat \<Rightarrow> nat" where
  "reprDist x k c = (case c of (s, n) \<Rightarrow> nat \<bar>int (s * 10 ^ (n - k)) - int x\<bar>)"

fun pickRepr :: "nat \<Rightarrow> nat \<Rightarrow> nat \<times> nat \<Rightarrow> (nat \<times> nat) list \<Rightarrow> nat \<times> nat" where
  "pickRepr x k best [] = best"
| "pickRepr x k best (c # cs) =
     pickRepr x k
       (if reprDist x k c < reprDist x k best
           \<or> (reprDist x k c = reprDist x k best \<and> even (fst c) \<and> odd (fst best))
        then c else best) cs"

text \<open>
  The search for the least \<open>k\<close>, from \<open>k\<close> upwards; it ends at the number of digits of
  \<open>x\<close> at the latest, where \<open>s = x\<close> fits. The result is \<open>(s, n, k)\<close>.
\<close>

fun shortestFrom :: "nat \<Rightarrow> nat \<Rightarrow> nat \<Rightarrow> nat \<times> nat \<times> nat" where
  "shortestFrom x k 0 = (x, numDigits x, numDigits x)"
| "shortestFrom x k (Suc fuel) =
     (case reprsAt x k of
        [] \<Rightarrow> shortestFrom x (Suc k) fuel
      | c # cs \<Rightarrow> (case pickRepr x k c cs of (s, n) \<Rightarrow> (s, n, k)))"

definition shortest :: "nat \<Rightarrow> nat \<times> nat \<times> nat" where
  "shortest x = shortestFrom x 1 (numDigits x)"

text \<open>
  The string of a positive integer-valued double: its digits followed by zeros up to
  21 digits, exponent notation above.
\<close>

definition natToString :: "nat \<Rightarrow> jsstring" where
  "natToString x =
     (case shortest x of (s, n, k) \<Rightarrow>
        if n \<le> 21 then digitsOf s @ replicate (n - k) (0x30 :: 16 word)
        else (case digitsOf s of
                [] \<Rightarrow> []
              | d # ds \<Rightarrow> (if ds = [] then [d] else d # 0x2E # ds) @ js ''e+'' @ digitsOf (n - 1)))"

text \<open>\<open>Number.prototype.toString()\<close>, which a template literal applies to a Number as well.\<close>

fun numberToString :: "number \<Rightarrow> jsstring" where
  "numberToString NaN = js ''NaN''"
| "numberToString PosInf = js ''Infinity''"
| "numberToString NegInf = js ''-Infinity''"
| "numberToString (Finite i) =
     (if i = 0 then js ''0''
      else if i < 0 then 0x2D # natToString (nat (- i))
      else natToString (nat i))"

text \<open>The difference of two Numbers of this kind (\<open>targetTime - now\<close> in the source).\<close>

fun num_minus :: "number \<Rightarrow> number \<Rightarrow> number" where
  "num_minus NaN _ = NaN"
| "num_minus _ NaN = NaN"
| "num_minus (Finite a) (Finite b) = toNumber (a - b)"
| "num_minus PosInf PosInf = NaN"
| "num_minus NegInf NegInf = NaN"
| "num_minus PosInf _ = PosInf"
| "num_minus NegInf _ = NegInf"
| "num_minus _ PosInf = NegInf"
| "num_minus _ NegInf = PosInf"

subsection \<open>Dates\<close>

text \<open>
  A Date holds a time value, the milliseconds since the epoch in UTC, or NaN (an
  invalid Date, \<open>None\<close>). The host's time zone is the function \<open>LocalTZA(t, isUTC)\<close> of
  ECMAScript: the offset of local time from UTC in milliseconds, at the UTC time value
  \<open>t\<close> when \<open>isUTC\<close> is true, and for the local time value \<open>t\<close> when it is false (a
  local time skipped or repeated by a change of offset is read with the offset before
  the change). \<open>LocalTime\<close> and \<open>UTC\<close> convert with it. The end of the range of time
  values (\<open>8.64e15\<close> milliseconds from the epoch) is outside the model.
\<close>

type_synonym date = "int option"

type_synonym zone = "int \<Rightarrow> bool \<Rightarrow> int"

definition msPerDay :: int where "msPerDay = 86400000"
definition msPerHour :: int where "msPerHour = 3600000"
definition msPerMinute :: int where "msPerMinute = 60000"

definition LocalTime :: "zone \<Rightarrow> int \<Rightarrow> int" where
  "LocalTime tza t = t + tza t True"

definition UTC :: "zone \<Rightarrow> int \<Rightarrow> int" where
  "UTC tza t = t - tza t False"

definition Day :: "int \<Rightarrow> int" where
  "Day t = t div msPerDay"

definition TimeWithinDay :: "int \<Rightarrow> int" where
  "TimeWithinDay t = t mod msPerDay"

text \<open>The Number a Date stands for in a comparison or a subtraction.\<close>

definition timeValue :: "date \<Rightarrow> number" where
  "timeValue d = (case d of None \<Rightarrow> NaN | Some t \<Rightarrow> Finite t)"

text \<open>
  \<open>date.setHours(h, m, 0, 0)\<close>: the local day of the date, at \<open>h:m:00.000\<close> local time,
  converted back to UTC. A NaN or infinite argument, or an invalid Date, gives an
  invalid Date.
\<close>

definition setHours :: "zone \<Rightarrow> number \<Rightarrow> number \<Rightarrow> date \<Rightarrow> date" where
  "setHours tza h m d =
     (case (d, h, m) of
        (Some t, Finite hh, Finite mm) \<Rightarrow>
          Some (UTC tza (Day (LocalTime tza t) * msPerDay + (hh * msPerHour + mm * msPerMinute)))
      | _ \<Rightarrow> None)"

text \<open>
  \<open>date.setDate(date.getDate() + 1)\<close>: \<open>setDate\<close> builds the day from the year and month
  of the local time of the date and the given day of the month, counting on past the end
  of the month, so the local day number grows by one and the local time within the day
  stays; the result is converted back to UTC.
\<close>

definition setDateNext :: "zone \<Rightarrow> date \<Rightarrow> date" where
  "setDateNext tza d =
     (case d of
        None \<Rightarrow> None
      | Some t \<Rightarrow>
          Some (UTC tza ((Day (LocalTime tza t) + 1) * msPerDay + TimeWithinDay (LocalTime tza t))))"

section \<open>The host page\<close>

text \<open>
  What \<open>init\<close> reads from the host: the entries of
  \<open>new URLSearchParams(window.location.search)\<close> in their order, the local time zone,
  and the clock at the two calls of \<open>new Date()\<close> in \<open>setupRefreshAt\<close> (\<open>now\<close> first,
  \<open>targetTime\<close> second).
\<close>

record window =
  searchParams :: "(jsstring \<times> jsstring) list"
  tza :: zone
  clockNow :: int
  clockTarget :: int

section \<open>The PageRefresh object\<close>

record refreshAtValue =
  hours :: number
  minutes :: number
  targetTime :: date

record config =
  refreshEvery :: "number option"
  refreshAt :: "refreshAtValue option"
  statusMessages :: "jsstring list"

record pageRefresh =
  refreshEveryTimeout :: "nat option"
  refreshAtTimeout :: "nat option"
  config :: config

text \<open>
  The state a method runs in: the object, and the host's list of active timers, each a
  handle and the delay given to \<open>setTimeout\<close> (the callback is
  \<open>window.location.reload()\<close> for both), with the number of handles issued so far.
\<close>

record state =
  self :: pageRefresh
  timers :: "(nat \<times> number) list"
  issued :: nat

datatype error = TypeError

text \<open>\<open>constructor()\<close>\<close>

definition newPageRefresh :: pageRefresh where
  "newPageRefresh =
     \<lparr>refreshEveryTimeout = None, refreshAtTimeout = None,
      config = \<lparr>refreshEvery = None, refreshAt = None, statusMessages = []\<rparr>\<rparr>"

text \<open>\<open>setTimeout(callback, delay)\<close> returns a fresh handle, an integer greater than zero.\<close>

definition setTimeout :: "number \<Rightarrow> state \<Rightarrow> nat \<times> state" where
  "setTimeout delay st =
     (let h = Suc (issued st) in (h, st\<lparr>timers := timers st @ [(h, delay)], issued := h\<rparr>))"

definition clearTimeout :: "nat \<Rightarrow> state \<Rightarrow> state" where
  "clearTimeout h st = st\<lparr>timers := filter (\<lambda>entry. fst entry \<noteq> h) (timers st)\<rparr>"

text \<open>Assignments to the fields of \<open>this\<close> and \<open>this.config\<close>.\<close>

definition pushStatus :: "jsstring \<Rightarrow> state \<Rightarrow> state" where
  "pushStatus msg st =
     st\<lparr>self := (self st)\<lparr>config := (config (self st))
        \<lparr>statusMessages := statusMessages (config (self st)) @ [msg]\<rparr>\<rparr>\<rparr>"

definition setRefreshEvery :: "number option \<Rightarrow> state \<Rightarrow> state" where
  "setRefreshEvery v st =
     st\<lparr>self := (self st)\<lparr>config := (config (self st))\<lparr>refreshEvery := v\<rparr>\<rparr>\<rparr>"

definition setRefreshAt :: "refreshAtValue option \<Rightarrow> state \<Rightarrow> state" where
  "setRefreshAt v st =
     st\<lparr>self := (self st)\<lparr>config := (config (self st))\<lparr>refreshAt := v\<rparr>\<rparr>\<rparr>"

definition setRefreshEveryTimeout :: "nat option \<Rightarrow> state \<Rightarrow> state" where
  "setRefreshEveryTimeout h st = st\<lparr>self := (self st)\<lparr>refreshEveryTimeout := h\<rparr>\<rparr>"

definition setRefreshAtTimeout :: "nat option \<Rightarrow> state \<Rightarrow> state" where
  "setRefreshAtTimeout h st = st\<lparr>self := (self st)\<lparr>refreshAtTimeout := h\<rparr>\<rparr>"

text \<open>
  A parameter value is a string or \<open>null\<close> (\<open>None\<close>). \<open>if (v)\<close> takes \<open>null\<close> and the
  empty string as false; \<open>parseInt(v)\<close> reads \<open>null\<close> as the string \<open>"null"\<close>. A timer
  field is \<open>null\<close> or a handle; \<open>if (h)\<close> takes \<open>null\<close> and \<open>0\<close> as false.
\<close>

definition truthy :: "jsstring option \<Rightarrow> bool" where
  "truthy v = (case v of None \<Rightarrow> False | Some s \<Rightarrow> s \<noteq> [])"

definition ToString :: "jsstring option \<Rightarrow> jsstring" where
  "ToString v = (case v of None \<Rightarrow> js ''null'' | Some s \<Rightarrow> s)"

definition truthyHandle :: "nat option \<Rightarrow> bool" where
  "truthyHandle h = (case h of None \<Rightarrow> False | Some n \<Rightarrow> n \<noteq> 0)"

subsection \<open>getQueryParam\<close>

text \<open>\<open>urlParams.get(param)\<close>: the value of the first entry of that name, or \<open>null\<close>.\<close>

definition getQueryParam :: "window \<Rightarrow> jsstring \<Rightarrow> jsstring option" where
  "getQueryParam win param = map_of (searchParams win) param"

subsection \<open>setupRefreshEvery\<close>

definition invalidEveryMsg :: jsstring where
  "invalidEveryMsg = js ''Invalid refresh_every parameter (must be a positive number)''"

definition everyMsg :: "number \<Rightarrow> jsstring" where
  "everyMsg seconds =
     js ''Auto-refresh enabled: Page will refresh every '' @ numberToString seconds
       @ js '' seconds''"

definition setupRefreshEvery :: "jsstring option \<Rightarrow> state \<Rightarrow> error + bool \<times> state" where
  "setupRefreshEvery arg st =
     (let seconds = parseInt (ToString arg)
      in if isNaN seconds \<or> num_le seconds (Finite 0)
         then Inr (False, pushStatus invalidEveryMsg st)
         else
           let st1 = setRefreshEvery (Some seconds) st;
               st2 = pushStatus (everyMsg seconds) st1;
               (handle, st3) = setTimeout (num_mult seconds (Finite 1000)) st2
           in Inr (True, setRefreshEveryTimeout (Some handle) st3))"

subsection \<open>setupRefreshAt\<close>

definition invalidAtMsg :: jsstring where
  "invalidAtMsg =
     js ''Invalid refresh_at parameter (format should be hhmm, e.g., 1430 for 2:30 PM)''"

definition atMsg :: "number \<Rightarrow> number \<Rightarrow> jsstring" where
  "atMsg h m =
     js ''Auto-refresh enabled: Page will refresh at '' @ padStart0 2 (numberToString h)
       @ js '':'' @ padStart0 2 (numberToString m) @ js '':00''"

text \<open>
  The argument \<open>refreshAt\<close> is \<open>arg\<close> here; \<open>refreshAt.toString()\<close> raises a TypeError
  on \<open>null\<close>.
\<close>

definition setupRefreshAt ::
  "window \<Rightarrow> jsstring option \<Rightarrow> state \<Rightarrow> error + bool \<times> state" where
  "setupRefreshAt win arg st =
     (case arg of
        None \<Rightarrow> Inl TypeError
      | Some timeStr \<Rightarrow>
          if length timeStr \<noteq> 4 then Inr (False, pushStatus invalidAtMsg st)
          else
            let hours = parseInt (substring 0 2 timeStr);
                minutes = parseInt (substring 2 4 timeStr)
            in if num_less hours (Finite 0) \<or> num_ge hours (Finite 24)
                  \<or> num_less minutes (Finite 0) \<or> num_ge minutes (Finite 60)
               then Inr (False, pushStatus invalidAtMsg st)
               else
                 let now = Some (clockNow win);
                     targetTime = setHours (tza win) hours minutes (Some (clockTarget win));
                     targetTime = (if num_le (timeValue targetTime) (timeValue now)
                                   then setDateNext (tza win) targetTime else targetTime);
                     timeUntilRefresh = num_minus (timeValue targetTime) (timeValue now);
                     st1 = setRefreshAt
                             (Some \<lparr>hours = hours, minutes = minutes,
                                    targetTime = targetTime\<rparr>) st;
                     st2 = pushStatus (atMsg hours minutes) st1;
                     (handle, st3) = setTimeout timeUntilRefresh st2
                 in Inr (True, setRefreshAtTimeout (Some handle) st3))"

subsection \<open>init\<close>

definition noParamsMsg :: jsstring where
  "noParamsMsg = js ''No refresh parameters detected - page will not auto-refresh''"

definition init :: "window \<Rightarrow> state \<Rightarrow> error + config \<times> state" where
  "init win st =
     (let refreshEvery = getQueryParam win (js ''refresh_every'');
          refreshAt = getQueryParam win (js ''refresh_at'')
      in case (if truthy refreshEvery then setupRefreshEvery refreshEvery st
               else Inr (False, st)) of
           Inl e \<Rightarrow> Inl e
         | Inr (_, st1) \<Rightarrow>
             (case (if truthy refreshAt then setupRefreshAt win refreshAt st1
                    else Inr (False, st1)) of
                Inl e \<Rightarrow> Inl e
              | Inr (_, st2) \<Rightarrow>
                  let st3 = (if \<not> truthy refreshEvery \<and> \<not> truthy refreshAt
                             then pushStatus noParamsMsg st2 else st2)
                  in Inr (config (self st3), st3)))"

subsection \<open>cancel and getConfig\<close>

definition cancel :: "state \<Rightarrow> error + unit \<times> state" where
  "cancel st =
     (let st1 = (case refreshEveryTimeout (self st) of
                   Some h \<Rightarrow> if truthyHandle (Some h)
                             then setRefreshEveryTimeout None (clearTimeout h st) else st
                 | None \<Rightarrow> st);
          st2 = (case refreshAtTimeout (self st1) of
                   Some h \<Rightarrow> if truthyHandle (Some h)
                             then setRefreshAtTimeout None (clearTimeout h st1) else st1
                 | None \<Rightarrow> st1)
      in Inr ((), st2))"

definition getConfig :: "state \<Rightarrow> error + config \<times> state" where
  "getConfig st = Inr (config (self st), st)"

text \<open>The state of a page that has just run \<open>new PageRefresh()\<close>: no timer yet.\<close>

definition freshState :: state where
  "freshState = \<lparr>self = newPageRefresh, timers = [], issued = 0\<rparr>"

text \<open>A page on which both timers are armed, as after \<open>?refresh_every=60&refresh_at=1500\<close>.\<close>

definition armedState :: state where
  "armedState =
     \<lparr>self = newPageRefresh\<lparr>refreshEveryTimeout := Some 1, refreshAtTimeout := Some 2\<rparr>,
      timers = [(1, Finite 60000), (2, Finite 44000000)], issued = 2\<rparr>"

text \<open>
  A host page for the examples: the given query parameters, local time two hours ahead
  of UTC at every instant, and the clock at 10:00:00.000 local time on 4 October 2024
  (08:00 UTC) when \<open>now\<close> is read, one millisecond later when \<open>targetTime\<close> is.
\<close>

definition exampleWindow :: "(string \<times> string) list \<Rightarrow> window" where
  "exampleWindow ps =
     \<lparr>searchParams = map (\<lambda>(name, v). (js name, js v)) ps, tza = (\<lambda>t isUTC. 7200000),
      clockNow = 1728028800000, clockTarget = 1728028800001\<rparr>"

text \<open>
  The zone Europe/Rome in 2024: one hour ahead of UTC, two hours from 31 March 01:00 UTC
  (02:00 local becomes 03:00) to 27 October 01:00 UTC (03:00 local becomes 02:00). The
  local times from 02:00 to 03:00 on 31 March do not exist and are read with the offset
  of one hour; those from 02:00 to 03:00 on 27 October occur twice and are read with the
  offset of two hours.
\<close>

definition romeTZA :: zone where
  "romeTZA t isUTC =
     (if isUTC
      then (if 1711846800000 \<le> t \<and> t < 1729990800000 then 7200000 else 3600000)
      else (if 1711846800000 + 7200000 \<le> t \<and> t < 1729990800000 + 7200000
            then 7200000 else 3600000))"

text \<open>
  A page in that zone with the given query parameters, the clock at \<open>now\<close> when \<open>now\<close>
  is read and one millisecond later when \<open>targetTime\<close> is. \<open>springNow\<close> is 31 March 2024,
  10:00 local time (08:00 UTC); \<open>autumnNow\<close> is 26 October 2024, 10:00 local time
  (08:00 UTC).
\<close>

definition romeWindow :: "(string \<times> string) list \<Rightarrow> int \<Rightarrow> window" where
  "romeWindow ps now =
     \<lparr>searchParams = map (\<lambda>(name, v). (js name, js v)) ps, tza = romeTZA,
      clockNow = now, clockTarget = now + 1\<rparr>"

definition springNow :: int where "springNow = 1711872000000"

definition autumnNow :: int where "autumnNow = 1729929600000"

text \<open>
  The delay of the timer a handle field of the object refers to, if that timer is
  active.
\<close>

definition timerDelay :: "nat option \<Rightarrow> state \<Rightarrow> number option" where
  "timerDelay h st = (case h of None \<Rightarrow> None | Some n \<Rightarrow> map_of (timers st) n)"

text \<open>
  The host hands out fresh handles: the handles of the active timers and the handles
  the object holds are among those issued so far.
\<close>

definition issuedHandle :: "state \<Rightarrow> nat option \<Rightarrow> bool" where
  "issuedHandle st h = (case h of None \<Rightarrow> True | Some n \<Rightarrow> n \<le> issued st)"

definition wellFormed :: "state \<Rightarrow> bool" where
  "wellFormed st \<longleftrightarrow>
     list_all (\<lambda>entry. fst entry \<le> issued st) (timers st)
     \<and> issuedHandle st (refreshEveryTimeout (self st))
     \<and> issuedHandle st (refreshAtTimeout (self st))"

text \<open>
  The page \<open>?refresh_every=1000...0\<close>, the digit 1 followed by 309 zeros, and the page
  \<open>?refresh_every=9007199254740993\<close> (\<open>2 ^ 53 + 1\<close>).
\<close>

definition overflowWindow :: window where
  "overflowWindow =
     (exampleWindow [])\<lparr>searchParams := [(js ''refresh_every'', digitsOf (10 ^ 309))]\<rparr>"


section \<open>Properties\<close>

subsection \<open>The steps of the methods\<close>

lemmas upd_defs = pushStatus_def setRefreshEvery_def setRefreshAt_def
  setRefreshEveryTimeout_def setRefreshAtTimeout_def clearTimeout_def

lemma truthy_Some: "truthy v \<Longrightarrow> \<exists>s. v = Some s \<and> s \<noteq> []"
  by (cases v) (simp_all add: truthy_def)

lemma setupRefreshEvery_invalid:
  "isNaN (parseInt (ToString v)) \<or> num_le (parseInt (ToString v)) (Finite 0) \<Longrightarrow>
   setupRefreshEvery v st = Inr (False, pushStatus invalidEveryMsg st)"
  by (simp add: setupRefreshEvery_def Let_def)

lemma setupRefreshEvery_valid:
  "\<not> isNaN (parseInt (ToString v)) \<Longrightarrow> \<not> num_le (parseInt (ToString v)) (Finite 0) \<Longrightarrow>
   setupRefreshEvery v st =
     Inr (True,
       st\<lparr>self := (self st)
            \<lparr>refreshEveryTimeout := Some (Suc (issued st)),
             config := (config (self st))
               \<lparr>refreshEvery := Some (parseInt (ToString v)),
                statusMessages := statusMessages (config (self st))
                  @ [everyMsg (parseInt (ToString v))]\<rparr>\<rparr>,
          timers := timers st
            @ [(Suc (issued st), num_mult (parseInt (ToString v)) (Finite 1000))],
          issued := Suc (issued st)\<rparr>)"
  by (simp add: setupRefreshEvery_def Let_def upd_defs setTimeout_def)

lemma setupRefreshEvery_total: "\<exists>b st'. setupRefreshEvery v st = Inr (b, st')"
  by (auto simp add: setupRefreshEvery_def Let_def split: prod.split)

lemma setupRefreshAt_total: "\<exists>b st'. setupRefreshAt win (Some s) st = Inr (b, st')"
  by (auto simp add: setupRefreshAt_def Let_def split: prod.split)

text \<open>
  \<open>init\<close> is its three steps in a row: the state \<open>st1\<close> after the \<open>refresh_every\<close> step, the
  state \<open>st2\<close> after the \<open>refresh_at\<close> step, and the message when both values are false.
\<close>

lemma init_steps:
  "\<exists>b1 st1 b2 st2.
     (if truthy (getQueryParam win (js ''refresh_every''))
      then setupRefreshEvery (getQueryParam win (js ''refresh_every'')) st
      else Inr (False, st)) = Inr (b1, st1)
   \<and> (if truthy (getQueryParam win (js ''refresh_at''))
      then setupRefreshAt win (getQueryParam win (js ''refresh_at'')) st1
      else Inr (False, st1)) = Inr (b2, st2)
   \<and> init win st =
       Inr (config (self (if \<not> truthy (getQueryParam win (js ''refresh_every''))
                             \<and> \<not> truthy (getQueryParam win (js ''refresh_at''))
                          then pushStatus noParamsMsg st2 else st2)),
            (if \<not> truthy (getQueryParam win (js ''refresh_every''))
                \<and> \<not> truthy (getQueryParam win (js ''refresh_at''))
             then pushStatus noParamsMsg st2 else st2))"
proof -
  let ?E = "getQueryParam win (js ''refresh_every'')"
  let ?A = "getQueryParam win (js ''refresh_at'')"
  obtain b1 st1 where e:
    "(if truthy ?E then setupRefreshEvery ?E st else Inr (False, st)) = Inr (b1, st1)"
    using setupRefreshEvery_total [of ?E st] by (cases "truthy ?E") auto
  have "\<exists>b2 st2.
          (if truthy ?A then setupRefreshAt win ?A st1 else Inr (False, st1)) = Inr (b2, st2)"
  proof (cases "truthy ?A")
    case True
    then obtain s where "?A = Some s" using truthy_Some by blast
    then show ?thesis using True setupRefreshAt_total [of win s st1] by simp
  next
    case False
    then show ?thesis by auto
  qed
  then obtain b2 st2 where a:
    "(if truthy ?A then setupRefreshAt win ?A st1 else Inr (False, st1)) = Inr (b2, st2)"
    by blast
  have "init win st =
       Inr (config (self (if \<not> truthy ?E \<and> \<not> truthy ?A
                          then pushStatus noParamsMsg st2 else st2)),
            (if \<not> truthy ?E \<and> \<not> truthy ?A then pushStatus noParamsMsg st2 else st2))"
    using e a by (auto simp add: init_def Let_def split: if_splits)
  with e a show ?thesis by blast
qed

text \<open>Each setup method appends one status message; a failed one does nothing else.\<close>

lemma setupRefreshEvery_msg:
  "setupRefreshEvery v st = Inr (b, st') \<Longrightarrow>
   statusMessages (config (self st')) = statusMessages (config (self st))
      @ [if b then everyMsg (parseInt (ToString v)) else invalidEveryMsg]"
  by (auto simp add: setupRefreshEvery_def Let_def upd_defs setTimeout_def split: if_splits)

lemma setupRefreshAt_msg:
  "setupRefreshAt win (Some s) st = Inr (b, st') \<Longrightarrow>
   statusMessages (config (self st')) = statusMessages (config (self st))
      @ [if b then atMsg (parseInt (substring 0 2 s)) (parseInt (substring 2 4 s))
         else invalidAtMsg]"
  by (auto simp add: setupRefreshAt_def Let_def upd_defs setTimeout_def split: if_splits)

lemma setupRefreshEvery_failed:
  "setupRefreshEvery v st = Inr (False, st') \<Longrightarrow> st' = pushStatus invalidEveryMsg st"
  by (auto simp add: setupRefreshEvery_def Let_def split: if_splits prod.splits)

lemma setupRefreshAt_failed:
  "setupRefreshAt win (Some s) st = Inr (False, st') \<Longrightarrow> st' = pushStatus invalidAtMsg st"
  by (auto simp add: setupRefreshAt_def Let_def split: if_splits prod.splits)

lemma noParamsMsg_distinct:
  "noParamsMsg \<noteq> invalidEveryMsg" "noParamsMsg \<noteq> everyMsg x"
  "noParamsMsg \<noteq> invalidAtMsg" "noParamsMsg \<noteq> atMsg h m"
  by (simp_all add: noParamsMsg_def invalidEveryMsg_def everyMsg_def invalidAtMsg_def
      atMsg_def js_def)

text \<open>The steps of \<open>init\<close> with the messages each of them appends.\<close>

lemma init_steps_msgs:
  "\<exists>b1 st1 b2 st2 me ma.
     (if truthy (getQueryParam win (js ''refresh_every''))
      then setupRefreshEvery (getQueryParam win (js ''refresh_every'')) st
      else Inr (False, st)) = Inr (b1, st1)
   \<and> (if truthy (getQueryParam win (js ''refresh_at''))
      then setupRefreshAt win (getQueryParam win (js ''refresh_at'')) st1
      else Inr (False, st1)) = Inr (b2, st2)
   \<and> init win st =
       Inr (config (self (if \<not> truthy (getQueryParam win (js ''refresh_every''))
                             \<and> \<not> truthy (getQueryParam win (js ''refresh_at''))
                          then pushStatus noParamsMsg st2 else st2)),
            (if \<not> truthy (getQueryParam win (js ''refresh_every''))
                \<and> \<not> truthy (getQueryParam win (js ''refresh_at''))
             then pushStatus noParamsMsg st2 else st2))
   \<and> statusMessages (config (self st1)) = statusMessages (config (self st))
        @ (if truthy (getQueryParam win (js ''refresh_every'')) then [me] else [])
   \<and> statusMessages (config (self st2)) = statusMessages (config (self st1))
        @ (if truthy (getQueryParam win (js ''refresh_at'')) then [ma] else [])
   \<and> me \<noteq> noParamsMsg \<and> ma \<noteq> noParamsMsg"
proof -
  let ?E = "getQueryParam win (js ''refresh_every'')"
  let ?A = "getQueryParam win (js ''refresh_at'')"
  let ?old = "statusMessages (config (self st))"
  obtain b1 st1 b2 st2 where
    e: "(if truthy ?E then setupRefreshEvery ?E st else Inr (False, st)) = Inr (b1, st1)" and
    a: "(if truthy ?A then setupRefreshAt win ?A st1 else Inr (False, st1)) = Inr (b2, st2)" and
    i: "init win st =
          Inr (config (self (if \<not> truthy ?E \<and> \<not> truthy ?A
                             then pushStatus noParamsMsg st2 else st2)),
               (if \<not> truthy ?E \<and> \<not> truthy ?A then pushStatus noParamsMsg st2 else st2))"
    using init_steps [of win st] by blast
  define me where "me = (if b1 then everyMsg (parseInt (ToString ?E)) else invalidEveryMsg)"
  define ma where "ma = (if b2 then atMsg (parseInt (substring 0 2 (the ?A)))
                                     (parseInt (substring 2 4 (the ?A))) else invalidAtMsg)"
  have m1: "statusMessages (config (self st1)) = ?old @ (if truthy ?E then [me] else [])"
    using e setupRefreshEvery_msg [of ?E st b1 st1] by (auto simp add: me_def split: if_splits)
  have m2: "statusMessages (config (self st2)) = statusMessages (config (self st1))
              @ (if truthy ?A then [ma] else [])"
  proof (cases "truthy ?A")
    case True
    then obtain s where s: "?A = Some s" using truthy_Some by blast
    with True a have "setupRefreshAt win (Some s) st1 = Inr (b2, st2)" by simp
    from setupRefreshAt_msg [OF this] show ?thesis using True s by (simp add: ma_def)
  next
    case False
    then show ?thesis using a by simp
  qed
  have "me \<noteq> noParamsMsg" "ma \<noteq> noParamsMsg"
    using noParamsMsg_distinct [symmetric] by (auto simp add: me_def ma_def)
  with e a i m1 m2 show ?thesis by blast
qed

subsection \<open>Numbers and dates\<close>



lemma setupRefreshAt_valid:
  assumes "length s = 4"
    and "parseInt (substring 0 2 s) = Finite h" "0 \<le> h" "h < 24"
    and "parseInt (substring 2 4 s) = Finite m" "0 \<le> m" "m < 60"
  shows "setupRefreshAt win (Some s) st =
    (let target = UTC (tza win) (Day (LocalTime (tza win) (clockTarget win)) * msPerDay
                     + (h * msPerHour + m * msPerMinute));
         t = (if target \<le> clockNow win
              then UTC (tza win) ((Day (LocalTime (tza win) target) + 1) * msPerDay
                     + TimeWithinDay (LocalTime (tza win) target))
              else target)
     in Inr (True,
       st\<lparr>self := (self st)
            \<lparr>refreshAtTimeout := Some (Suc (issued st)),
             config := (config (self st))
               \<lparr>refreshAt := Some \<lparr>hours = Finite h, minutes = Finite m, targetTime = Some t\<rparr>,
                statusMessages := statusMessages (config (self st))
                  @ [atMsg (Finite h) (Finite m)]\<rparr>\<rparr>,
          timers := timers st @ [(Suc (issued st), toNumber (t - clockNow win))],
          issued := Suc (issued st)\<rparr>))"
  using assms
  by (simp add: setupRefreshAt_def Let_def num_ge_def num_le_def setHours_def timeValue_def
      setDateNext_def upd_defs setTimeout_def)

lemmas date_defs = setHours_def setDateNext_def timeValue_def Day_def
      TimeWithinDay_def LocalTime_def UTC_def msPerDay_def msPerHour_def msPerMinute_def
      romeTZA_def romeWindow_def springNow_def autumnNow_def

lemmas eval_defs = init_def getQueryParam_def exampleWindow_def js_def truthy_def
  setupRefreshEvery_def setupRefreshAt_def ToString_def parseInt_def isWhiteSpace_def
  isRadixDigit_def digitValue_def digitsValue_def toNumber_def roundNat_def isNaN_def
  num_le_def num_ge_def substring_def Let_def upd_defs setTimeout_def freshState_def
  newPageRefresh_def

subsection \<open>init\<close>

text \<open>
  C6. \<open>init()\<close> returns for every query string, every zone and clock, and every state of
  the object: it never raises (the one call that can raise, \<open>refreshAt.toString()\<close> on
  \<open>null\<close>, is behind \<open>if (refreshAt)\<close>). The other half of the claim fails on
  \<open>?refresh_at=abcd\<close>: the malformed value is not surfaced in \<open>statusMessages\<close>. \<open>init()\<close>
  appends the confirmation "Page will refresh at NaN:NaN:00" and no invalid-input
  message, sets \<open>config.refreshAt\<close> and arms a timer with delay NaN, since NaN passes the
  range check of \<open>setupRefreshAt\<close>.
\<close>

theorem init_returns_abcd_not_surfaced:
  "(\<exists>c st'. init win st = Inr (c, st'))
   \<and> init (exampleWindow [(''refresh_at'', ''abcd'')]) freshState =
       Inr (\<lparr>refreshEvery = None,
              refreshAt = Some \<lparr>hours = NaN, minutes = NaN, targetTime = None\<rparr>,
              statusMessages =
                [js ''Auto-refresh enabled: Page will refresh at NaN:NaN:00'']\<rparr>,
            \<lparr>self = \<lparr>refreshEveryTimeout = None, refreshAtTimeout = Some 1,
                     config = \<lparr>refreshEvery = None,
                       refreshAt = Some \<lparr>hours = NaN, minutes = NaN, targetTime = None\<rparr>,
                       statusMessages =
                         [js ''Auto-refresh enabled: Page will refresh at NaN:NaN:00'']\<rparr>\<rparr>,
             timers = [(1, NaN)], issued = 1\<rparr>)
   \<and> js ''Auto-refresh enabled: Page will refresh at NaN:NaN:00'' \<noteq> invalidAtMsg"
proof (intro conjI)
  show "\<exists>c st'. init win st = Inr (c, st')"
    using init_steps [of win st] by blast
next
  show "init (exampleWindow [(''refresh_at'', ''abcd'')]) freshState =
       Inr (\<lparr>refreshEvery = None,
              refreshAt = Some \<lparr>hours = NaN, minutes = NaN, targetTime = None\<rparr>,
              statusMessages =
                [js ''Auto-refresh enabled: Page will refresh at NaN:NaN:00'']\<rparr>,
            \<lparr>self = \<lparr>refreshEveryTimeout = None, refreshAtTimeout = Some 1,
                     config = \<lparr>refreshEvery = None,
                       refreshAt = Some \<lparr>hours = NaN, minutes = NaN, targetTime = None\<rparr>,
                       statusMessages =
                         [js ''Auto-refresh enabled: Page will refresh at NaN:NaN:00'']\<rparr>\<rparr>,
             timers = [(1, NaN)], issued = 1\<rparr>)"
    by (simp add: eval_defs date_defs atMsg_def padStart0_def)
next
  show "js ''Auto-refresh enabled: Page will refresh at NaN:NaN:00'' \<noteq> invalidAtMsg"
    by (simp add: invalidAtMsg_def js_def)
qed



text \<open>
  C3, as the claim states it, fails: with \<open>?refresh_every=\<close> the parameter is present in
  the query string (its value is the empty string), and \<open>init()\<close> still appends the
  "no refresh parameters" message, since \<open>if (refreshEvery)\<close> takes the empty string as
  false.
\<close>

theorem no_params_counterexample:
  "getQueryParam (exampleWindow [(''refresh_every'', [])]) (js ''refresh_every'') = Some []
   \<and> init (exampleWindow [(''refresh_every'', [])]) freshState
       = Inr (\<lparr>refreshEvery = None, refreshAt = None, statusMessages = [noParamsMsg]\<rparr>,
              pushStatus noParamsMsg freshState)"
  by (simp add: eval_defs)

text \<open>
  C3, amended. \<open>init()\<close> appends the "no refresh parameters" message exactly when neither
  \<open>refresh_every\<close> nor \<open>refresh_at\<close> has a non-empty value (each is absent or empty). In
  that case it is the only message appended and nothing else changes: \<open>refreshEvery\<close> and
  \<open>refreshAt\<close> stay as they were (\<open>null\<close> on a new object).
\<close>

theorem init_no_params:
  "\<exists>c st'. init win st = Inr (c, st')
     \<and> (noParamsMsg \<in> set (drop (length (statusMessages (config (self st))))
                              (statusMessages c))
          \<longleftrightarrow> \<not> truthy (getQueryParam win (js ''refresh_every''))
              \<and> \<not> truthy (getQueryParam win (js ''refresh_at'')))
     \<and> (\<not> truthy (getQueryParam win (js ''refresh_every''))
          \<and> \<not> truthy (getQueryParam win (js ''refresh_at''))
        \<longrightarrow> st' = pushStatus noParamsMsg st
            \<and> statusMessages c = statusMessages (config (self st)) @ [noParamsMsg]
            \<and> refreshEvery c = refreshEvery (config (self st))
            \<and> refreshAt c = refreshAt (config (self st)))"
proof -
  let ?E = "getQueryParam win (js ''refresh_every'')"
  let ?A = "getQueryParam win (js ''refresh_at'')"
  obtain b1 st1 b2 st2 me ma where
    e: "(if truthy ?E then setupRefreshEvery ?E st else Inr (False, st)) = Inr (b1, st1)" and
    a: "(if truthy ?A then setupRefreshAt win ?A st1 else Inr (False, st1)) = Inr (b2, st2)" and
    i: "init win st =
          Inr (config (self (if \<not> truthy ?E \<and> \<not> truthy ?A
                             then pushStatus noParamsMsg st2 else st2)),
               (if \<not> truthy ?E \<and> \<not> truthy ?A then pushStatus noParamsMsg st2 else st2))" and
    m1: "statusMessages (config (self st1)) = statusMessages (config (self st))
           @ (if truthy ?E then [me] else [])" and
    m2: "statusMessages (config (self st2)) = statusMessages (config (self st1))
           @ (if truthy ?A then [ma] else [])" and
    ne: "me \<noteq> noParamsMsg" "ma \<noteq> noParamsMsg"
    using init_steps_msgs [of win st] by blast
  show ?thesis
  proof (cases "\<not> truthy ?E \<and> \<not> truthy ?A")
    case True
    then show ?thesis using e a i by (auto simp add: pushStatus_def)
  next
    case False
    then show ?thesis using e a i m1 m2 ne by auto
  qed
qed

theorem init_no_params_witness:
  "\<not> truthy (getQueryParam (exampleWindow []) (js ''refresh_every''))
   \<and> \<not> truthy (getQueryParam (exampleWindow []) (js ''refresh_at''))
   \<and> init (exampleWindow []) freshState
       = Inr (\<lparr>refreshEvery = None, refreshAt = None, statusMessages = [noParamsMsg]\<rparr>,
              pushStatus noParamsMsg freshState)"
  using init_no_params [of "exampleWindow []" freshState]
  by (auto simp add: getQueryParam_def exampleWindow_def truthy_def pushStatus_def
      freshState_def newPageRefresh_def)

subsection \<open>setupRefreshAt\<close>

text \<open>
  C1 holds for a value of another length and for an hour or minute that parses to a
  number out of range, and fails for a value whose hour or minute does not parse: NaN
  passes the four comparisons of the range check, which \<open>setupRefreshEvery\<close> guards
  against with \<open>isNaN\<close>. For \<open>refresh_at=abcd\<close> the method reports success, stores
  \<open>{hours: NaN, minutes: NaN, targetTime: Invalid Date}\<close> in \<open>config.refreshAt\<close>, appends
  "Page will refresh at NaN:NaN:00" and arms a timer with delay NaN.
\<close>

theorem setupRefreshAt_abcd:
  "setupRefreshAt win (Some (js ''abcd'')) freshState =
     Inr (True,
       \<lparr>self = \<lparr>refreshEveryTimeout = None, refreshAtTimeout = Some 1,
                config = \<lparr>refreshEvery = None,
                  refreshAt = Some \<lparr>hours = NaN, minutes = NaN, targetTime = None\<rparr>,
                  statusMessages =
                    [js ''Auto-refresh enabled: Page will refresh at NaN:NaN:00'']\<rparr>\<rparr>,
        timers = [(1, NaN)], issued = 1\<rparr>)"
  by (simp add: setupRefreshAt_def js_def substring_def parseInt_def isWhiteSpace_def
      isRadixDigit_def digitValue_def num_ge_def num_le_def Let_def setHours_def
      timeValue_def upd_defs setTimeout_def freshState_def newPageRefresh_def atMsg_def
      padStart0_def)





subsection \<open>Independence of the two directives\<close>

lemma setupRefreshEvery_effect:
  "setupRefreshEvery v st = Inr (b, st') \<Longrightarrow>
     refreshAt (config (self st')) = refreshAt (config (self st))
   \<and> refreshAtTimeout (self st') = refreshAtTimeout (self st)
   \<and> (if b
      then refreshEvery (config (self st')) = Some (parseInt (ToString v))
         \<and> refreshEveryTimeout (self st') = Some (Suc (issued st))
         \<and> timers st' = timers st
              @ [(Suc (issued st), num_mult (parseInt (ToString v)) (Finite 1000))]
         \<and> issued st' = Suc (issued st)
         \<and> \<not> isNaN (parseInt (ToString v)) \<and> \<not> num_le (parseInt (ToString v)) (Finite 0)
      else st' = pushStatus invalidEveryMsg st
         \<and> (isNaN (parseInt (ToString v)) \<or> num_le (parseInt (ToString v)) (Finite 0)))"
  by (auto simp add: setupRefreshEvery_def Let_def upd_defs setTimeout_def split: if_splits)

lemma setupRefreshAt_effect:
  "setupRefreshAt win (Some s) st = Inr (b, st') \<Longrightarrow>
     refreshEvery (config (self st')) = refreshEvery (config (self st))
   \<and> refreshEveryTimeout (self st') = refreshEveryTimeout (self st)
   \<and> (if b
      then refreshAtTimeout (self st') = Some (Suc (issued st))
         \<and> (\<exists>d. timers st' = timers st @ [(Suc (issued st), d)])
         \<and> issued st' = Suc (issued st)
      else st' = pushStatus invalidAtMsg st)"
  by (auto simp add: setupRefreshAt_def Let_def upd_defs setTimeout_def split: if_splits)

text \<open>The outcome of \<open>setupRefreshAt\<close> is the same from any two states.\<close>

lemma setupRefreshAt_indep:
  assumes "setupRefreshAt win (Some s) sa = Inr (ba, sa')"
    and "setupRefreshAt win' (Some s) sb = Inr (bb, sb')"
    and "tza win = tza win'" "clockNow win = clockNow win'" "clockTarget win = clockTarget win'"
  shows "ba = bb
    \<and> (if ba
       then (\<exists>v d m. refreshAt (config (self sa')) = Some v \<and> refreshAt (config (self sb')) = Some v
              \<and> timers sa' = timers sa @ [(Suc (issued sa), d)]
              \<and> timers sb' = timers sb @ [(Suc (issued sb), d)]
              \<and> statusMessages (config (self sa')) = statusMessages (config (self sa)) @ [m]
              \<and> statusMessages (config (self sb')) = statusMessages (config (self sb)) @ [m])
       else sa' = pushStatus invalidAtMsg sa \<and> sb' = pushStatus invalidAtMsg sb)"
  using assms
  by (auto simp add: setupRefreshAt_def Let_def upd_defs setTimeout_def split: if_splits)

lemma map_of_unissued:
  "list_all (\<lambda>entry. fst entry \<le> n) xs \<Longrightarrow> map_of xs (Suc n) = None"
  by (induction xs) auto

lemma map_of_fresh:
  "list_all (\<lambda>entry. fst entry \<le> n) xs \<Longrightarrow> ([Suc n \<mapsto> d] ++ map_of xs) (Suc n) = Some d"
  by (simp add: map_add_def map_of_unissued)

lemma map_of_old:
  "h \<le> n \<Longrightarrow> ([Suc n \<mapsto> d] ++ m) h = m h"
  by (auto simp add: map_add_def split: option.splits)

lemma wellFormed_pushStatus: "wellFormed (pushStatus msg st) = wellFormed st"
  by (auto simp add: wellFormed_def pushStatus_def issuedHandle_def split: option.splits)

lemma timerDelay_pushStatus: "timerDelay h (pushStatus msg st) = timerDelay h st"
  by (auto simp add: timerDelay_def pushStatus_def split: option.splits)

lemma list_all_mono_le:
  "list_all (\<lambda>entry. fst entry \<le> n) xs \<Longrightarrow> list_all (\<lambda>entry. fst entry \<le> Suc n) (xs :: (nat \<times> 'a) list)"
  by (induction xs) auto

lemma every_step:
  assumes "(if truthy v then setupRefreshEvery v st else Inr (False, st)) = Inr (b, t)"
    and "wellFormed st"
  shows "wellFormed t \<and> refreshAt (config (self t)) = refreshAt (config (self st))
    \<and> refreshAtTimeout (self t) = refreshAtTimeout (self st)
    \<and> timerDelay (refreshAtTimeout (self t)) t = timerDelay (refreshAtTimeout (self st)) st"
proof (cases "truthy v")
    case False
    with assms show ?thesis by simp
  next
    case True
    with assms(1) have s: "setupRefreshEvery v st = Inr (b, t)" by simp
    note eff = setupRefreshEvery_effect [OF s]
    show ?thesis
    proof (cases b)
      case False
      with eff have "t = pushStatus invalidEveryMsg st" by simp
      then show ?thesis
        using assms(2) by (simp add: wellFormed_pushStatus timerDelay_pushStatus)
          (simp add: pushStatus_def)
    next
      case True
      with eff have f: "refreshAt (config (self t)) = refreshAt (config (self st))"
        "refreshAtTimeout (self t) = refreshAtTimeout (self st)"
        "refreshEveryTimeout (self t) = Some (Suc (issued st))"
        "timers t = timers st
              @ [(Suc (issued st), num_mult (parseInt (ToString v)) (Finite 1000))]"
        "issued t = Suc (issued st)" by simp_all
      have "wellFormed t"
        using assms(2) f
        by (auto simp add: wellFormed_def issuedHandle_def list_all_mono_le split: option.splits)
      moreover have "timerDelay (refreshAtTimeout (self t)) t
          = timerDelay (refreshAtTimeout (self st)) st"
        using assms(2) f
        by (auto simp add: wellFormed_def issuedHandle_def timerDelay_def map_of_old
            split: option.splits)
      ultimately show ?thesis using f by simp
    qed
qed

lemma at_step:
  assumes "(if truthy v then setupRefreshAt win v t else Inr (False, t)) = Inr (b, u)"
    and "wellFormed t"
  shows "refreshEvery (config (self u)) = refreshEvery (config (self t))
    \<and> refreshEveryTimeout (self u) = refreshEveryTimeout (self t)
    \<and> timerDelay (refreshEveryTimeout (self u)) u = timerDelay (refreshEveryTimeout (self t)) t"
proof (cases "truthy v")
    case False
    with assms show ?thesis by simp
  next
    case True
    then obtain s where v: "v = Some s" using truthy_Some by blast
    with True assms(1) have s: "setupRefreshAt win (Some s) t = Inr (b, u)" by simp
    note eff = setupRefreshAt_effect [OF s]
    show ?thesis
    proof (cases b)
      case False
      with eff have "u = pushStatus invalidAtMsg t" by simp
      then show ?thesis
        by (simp add: timerDelay_pushStatus) (simp add: pushStatus_def)
    next
      case True
      with eff obtain d where f: "refreshEvery (config (self u)) = refreshEvery (config (self t))"
        "refreshEveryTimeout (self u) = refreshEveryTimeout (self t)"
        "timers u = timers t @ [(Suc (issued t), d)]" by auto
      have "timerDelay (refreshEveryTimeout (self u)) u
          = timerDelay (refreshEveryTimeout (self t)) t"
        using assms(2) f
        by (auto simp add: wellFormed_def issuedHandle_def timerDelay_def map_of_old
            split: option.splits)
      then show ?thesis using f by simp
    qed
qed

lemma at_step_indep:
  assumes a1: "(if truthy v then setupRefreshAt win v ta else Inr (False, ta)) = Inr (ba, ua)"
    and a2: "(if truthy v then setupRefreshAt win' v tb else Inr (False, tb)) = Inr (bb, ub)"
    and w: "tza win = tza win'" "clockNow win = clockNow win'" "clockTarget win = clockTarget win'"
    and wf: "wellFormed ta" "wellFormed tb"
    and same: "refreshAt (config (self ta)) = refreshAt (config (self tb))"
      "timerDelay (refreshAtTimeout (self ta)) ta = timerDelay (refreshAtTimeout (self tb)) tb"
  shows "refreshAt (config (self ua)) = refreshAt (config (self ub))
    \<and> timerDelay (refreshAtTimeout (self ua)) ua = timerDelay (refreshAtTimeout (self ub)) ub
    \<and> (truthy v \<longrightarrow> statusMessages (config (self ua)) \<noteq> []
          \<and> statusMessages (config (self ub)) \<noteq> []
          \<and> last (statusMessages (config (self ua))) = last (statusMessages (config (self ub))))"
proof (cases "truthy v")
  case False
  with a1 a2 same show ?thesis by simp
next
  case True
  then obtain s where v: "v = Some s" using truthy_Some by blast
  from True v a1 have s1: "setupRefreshAt win (Some s) ta = Inr (ba, ua)" by simp
  from True v a2 have s2: "setupRefreshAt win' (Some s) tb = Inr (bb, ub)" by simp
  note ind = setupRefreshAt_indep [OF s1 s2 w]
  note e1 = setupRefreshAt_effect [OF s1]
  note e2 = setupRefreshAt_effect [OF s2]
  show ?thesis
  proof (cases ba)
    case False
    with ind have "ua = pushStatus invalidAtMsg ta" "ub = pushStatus invalidAtMsg tb" by simp_all
    then show ?thesis
      using same by (simp add: timerDelay_pushStatus) (simp add: pushStatus_def)
  next
    case True
    with ind obtain x d m where f:
      "refreshAt (config (self ua)) = Some x" "refreshAt (config (self ub)) = Some x"
      "timers ua = timers ta @ [(Suc (issued ta), d)]"
      "timers ub = timers tb @ [(Suc (issued tb), d)]"
      "statusMessages (config (self ua)) = statusMessages (config (self ta)) @ [m]"
      "statusMessages (config (self ub)) = statusMessages (config (self tb)) @ [m]"
      by auto
    from True ind e1 e2 have h: "refreshAtTimeout (self ua) = Some (Suc (issued ta))"
      "refreshAtTimeout (self ub) = Some (Suc (issued tb))" by simp_all
    have "timerDelay (refreshAtTimeout (self ua)) ua = Some d"
      using wf(1) by (simp add: h f timerDelay_def wellFormed_def map_of_fresh)
    moreover have "timerDelay (refreshAtTimeout (self ub)) ub = Some d"
      using wf(2) by (simp add: h f timerDelay_def wellFormed_def map_of_fresh)
    ultimately show ?thesis using f by simp
  qed
qed

lemma pushStatus_fields:
  "timers (pushStatus msg st) = timers st"
  "issued (pushStatus msg st) = issued st"
  "refreshEveryTimeout (self (pushStatus msg st)) = refreshEveryTimeout (self st)"
  "refreshAtTimeout (self (pushStatus msg st)) = refreshAtTimeout (self st)"
  "refreshEvery (config (self (pushStatus msg st))) = refreshEvery (config (self st))"
  "refreshAt (config (self (pushStatus msg st))) = refreshAt (config (self st))"
  "statusMessages (config (self (pushStatus msg st))) = statusMessages (config (self st)) @ [msg]"
  by (simp_all add: pushStatus_def)

lemma parseInt_Nil: "parseInt [] = NaN"
  by (simp add: parseInt_def)

text \<open>
  C7. Two runs of \<open>init()\<close> from the same state: with the same \<open>refresh_every\<close> value,
  \<open>config.refreshEvery\<close>, the delay of the timer \<open>refreshEveryTimeout\<close> refers to and the
  status message of \<open>refresh_every\<close> (the first one appended) are the same, whatever
  \<open>refresh_at\<close> is in either run; with the same \<open>refresh_at\<close> value, time zone and clock,
  \<open>config.refreshAt\<close>, the delay of the timer \<open>refreshAtTimeout\<close> refers to and the status
  message of \<open>refresh_at\<close> (the last one appended) are the same, whatever \<open>refresh_every\<close>
  is. With both values valid, two timers with different handles are armed.
\<close>

theorem directives_independent:
  assumes wf: "wellFormed st"
  shows "\<exists>c1 s1 c2 s2. init win1 st = Inr (c1, s1) \<and> init win2 st = Inr (c2, s2)
    \<and> (getQueryParam win1 (js ''refresh_every'') = getQueryParam win2 (js ''refresh_every'')
        \<longrightarrow> refreshEvery c1 = refreshEvery c2
          \<and> timerDelay (refreshEveryTimeout (self s1)) s1
              = timerDelay (refreshEveryTimeout (self s2)) s2
          \<and> (truthy (getQueryParam win1 (js ''refresh_every''))
              \<longrightarrow> statusMessages c1 ! length (statusMessages (config (self st)))
                  = statusMessages c2 ! length (statusMessages (config (self st)))))
    \<and> (getQueryParam win1 (js ''refresh_at'') = getQueryParam win2 (js ''refresh_at'')
          \<and> tza win1 = tza win2 \<and> clockNow win1 = clockNow win2
          \<and> clockTarget win1 = clockTarget win2
        \<longrightarrow> refreshAt c1 = refreshAt c2
          \<and> timerDelay (refreshAtTimeout (self s1)) s1
              = timerDelay (refreshAtTimeout (self s2)) s2
          \<and> (truthy (getQueryParam win1 (js ''refresh_at''))
              \<longrightarrow> last (statusMessages c1) = last (statusMessages c2)))
    \<and> (getQueryParam win1 (js ''refresh_every'') = Some e \<and> parseInt e = Finite n \<and> 0 < n
          \<and> getQueryParam win1 (js ''refresh_at'') = Some a \<and> length a = 4
          \<and> parseInt (substring 0 2 a) = Finite h \<and> 0 \<le> h \<and> h \<le> 23
          \<and> parseInt (substring 2 4 a) = Finite m \<and> 0 \<le> m \<and> m \<le> 59
        \<longrightarrow> (\<exists>d1 d2. timers s1 = timers st
                 @ [(Suc (issued st), d1), (Suc (Suc (issued st)), d2)]
              \<and> refreshEveryTimeout (self s1) = Some (Suc (issued st))
              \<and> refreshAtTimeout (self s1) = Some (Suc (Suc (issued st)))))"
proof -
  let ?E1 = "getQueryParam win1 (js ''refresh_every'')"
  let ?A1 = "getQueryParam win1 (js ''refresh_at'')"
  let ?E2 = "getQueryParam win2 (js ''refresh_every'')"
  let ?A2 = "getQueryParam win2 (js ''refresh_at'')"
  let ?old = "statusMessages (config (self st))"
  obtain b1 t1 b1' u1 me1 ma1 where
    e1: "(if truthy ?E1 then setupRefreshEvery ?E1 st else Inr (False, st)) = Inr (b1, t1)" and
    a1: "(if truthy ?A1 then setupRefreshAt win1 ?A1 t1 else Inr (False, t1)) = Inr (b1', u1)" and
    i1: "init win1 st =
          Inr (config (self (if \<not> truthy ?E1 \<and> \<not> truthy ?A1
                             then pushStatus noParamsMsg u1 else u1)),
               (if \<not> truthy ?E1 \<and> \<not> truthy ?A1 then pushStatus noParamsMsg u1 else u1))" and
    m11: "statusMessages (config (self t1)) = ?old @ (if truthy ?E1 then [me1] else [])" and
    m12: "statusMessages (config (self u1)) = statusMessages (config (self t1))
           @ (if truthy ?A1 then [ma1] else [])"
    using init_steps_msgs [of win1 st] by blast
  obtain b2 t2 b2' u2 me2 ma2 where
    e2: "(if truthy ?E2 then setupRefreshEvery ?E2 st else Inr (False, st)) = Inr (b2, t2)" and
    a2: "(if truthy ?A2 then setupRefreshAt win2 ?A2 t2 else Inr (False, t2)) = Inr (b2', u2)" and
    i2: "init win2 st =
          Inr (config (self (if \<not> truthy ?E2 \<and> \<not> truthy ?A2
                             then pushStatus noParamsMsg u2 else u2)),
               (if \<not> truthy ?E2 \<and> \<not> truthy ?A2 then pushStatus noParamsMsg u2 else u2))" and
    m21: "statusMessages (config (self t2)) = ?old @ (if truthy ?E2 then [me2] else [])" and
    m22: "statusMessages (config (self u2)) = statusMessages (config (self t2))
           @ (if truthy ?A2 then [ma2] else [])"
    using init_steps_msgs [of win2 st] by blast
  define s1 where "s1 = (if \<not> truthy ?E1 \<and> \<not> truthy ?A1 then pushStatus noParamsMsg u1 else u1)"
  define s2 where "s2 = (if \<not> truthy ?E2 \<and> \<not> truthy ?A2 then pushStatus noParamsMsg u2 else u2)"
  note es1 = every_step [OF e1 wf]
  note es2 = every_step [OF e2 wf]
  have wf1: "wellFormed t1" and wf2: "wellFormed t2" using es1 es2 by simp_all
  note as1 = at_step [OF a1 wf1]
  note as2 = at_step [OF a2 wf2]
  have fin1: "refreshEvery (config (self s1)) = refreshEvery (config (self u1))"
      "refreshAt (config (self s1)) = refreshAt (config (self u1))"
      "timerDelay (refreshEveryTimeout (self s1)) s1 = timerDelay (refreshEveryTimeout (self u1)) u1"
      "timerDelay (refreshAtTimeout (self s1)) s1 = timerDelay (refreshAtTimeout (self u1)) u1"
    by (simp_all add: s1_def timerDelay_pushStatus pushStatus_fields)
  have fin2: "refreshEvery (config (self s2)) = refreshEvery (config (self u2))"
      "refreshAt (config (self s2)) = refreshAt (config (self u2))"
      "timerDelay (refreshEveryTimeout (self s2)) s2 = timerDelay (refreshEveryTimeout (self u2)) u2"
      "timerDelay (refreshAtTimeout (self s2)) s2 = timerDelay (refreshAtTimeout (self u2)) u2"
    by (simp_all add: s2_def timerDelay_pushStatus pushStatus_fields)
  have partA: "refreshEvery (config (self s1)) = refreshEvery (config (self s2))
          \<and> timerDelay (refreshEveryTimeout (self s1)) s1
              = timerDelay (refreshEveryTimeout (self s2)) s2
          \<and> (truthy ?E1 \<longrightarrow> statusMessages (config (self s1)) ! length ?old
                  = statusMessages (config (self s2)) ! length ?old)"
    if eq: "?E1 = ?E2"
  proof -
    from e1 [unfolded eq] e2 have t: "t2 = t1" by simp
    have "truthy ?E1 \<longrightarrow> statusMessages (config (self s1)) ! length ?old
                  = statusMessages (config (self s2)) ! length ?old"
    proof
      assume tr: "truthy ?E1"
      with eq have tr2: "truthy ?E2" by simp
      from m11 m21 tr tr2 t have me: "me2 = me1" by simp
      have "statusMessages (config (self s1)) = ?old @ [me1] @ (if truthy ?A1 then [ma1] else [])"
        using tr m11 m12 by (simp add: s1_def)
      moreover have "statusMessages (config (self s2)) = ?old @ [me1] @ (if truthy ?A2 then [ma2] else [])"
        using tr2 m21 m22 me by (simp add: s2_def)
      ultimately show "statusMessages (config (self s1)) ! length ?old
                  = statusMessages (config (self s2)) ! length ?old"
        by (simp add: nth_append)
    qed
    moreover from as1 have x1: "refreshEvery (config (self u1)) = refreshEvery (config (self t1))"
      and y1: "timerDelay (refreshEveryTimeout (self u1)) u1
          = timerDelay (refreshEveryTimeout (self t1)) t1" by blast+
    from as2 have x2: "refreshEvery (config (self u2)) = refreshEvery (config (self t2))"
      and y2: "timerDelay (refreshEveryTimeout (self u2)) u2
          = timerDelay (refreshEveryTimeout (self t2)) t2" by blast+
    have "refreshEvery (config (self s1)) = refreshEvery (config (self s2))"
      by (simp only: fin1(1) fin2(1) x1 x2 t)
    moreover have "timerDelay (refreshEveryTimeout (self s1)) s1
              = timerDelay (refreshEveryTimeout (self s2)) s2"
      by (simp only: fin1(3) fin2(3) y1 y2 t)
    ultimately show ?thesis by blast
  qed
  have partB: "refreshAt (config (self s1)) = refreshAt (config (self s2))
          \<and> timerDelay (refreshAtTimeout (self s1)) s1
              = timerDelay (refreshAtTimeout (self s2)) s2
          \<and> (truthy ?A1 \<longrightarrow> last (statusMessages (config (self s1)))
                = last (statusMessages (config (self s2))))"
    if eq: "?A1 = ?A2" and w: "tza win1 = tza win2" "clockNow win1 = clockNow win2"
      "clockTarget win1 = clockTarget win2"
  proof -
    from a2 [folded eq] have a2': "(if truthy ?A1 then setupRefreshAt win2 ?A1 t2 else Inr (False, t2))
        = Inr (b2', u2)" .
    from es1 have p1: "refreshAt (config (self t1)) = refreshAt (config (self st))"
      and q1: "timerDelay (refreshAtTimeout (self t1)) t1
          = timerDelay (refreshAtTimeout (self st)) st" by blast+
    from es2 have p2: "refreshAt (config (self t2)) = refreshAt (config (self st))"
      and q2: "timerDelay (refreshAtTimeout (self t2)) t2
          = timerDelay (refreshAtTimeout (self st)) st" by blast+
    have same: "refreshAt (config (self t1)) = refreshAt (config (self t2))"
      "timerDelay (refreshAtTimeout (self t1)) t1 = timerDelay (refreshAtTimeout (self t2)) t2"
      by (simp_all only: p1 p2 q1 q2)
    note ind = at_step_indep [OF a1 a2' w wf1 wf2 same]
    have su: "truthy ?A1 \<longrightarrow> s1 = u1 \<and> s2 = u2" using eq by (simp add: s1_def s2_def)
    from ind have "refreshAt (config (self s1)) = refreshAt (config (self s2))"
      by (simp only: fin1(2) fin2(2))
    moreover from ind have "timerDelay (refreshAtTimeout (self s1)) s1
              = timerDelay (refreshAtTimeout (self s2)) s2"
      by (simp only: fin1(4) fin2(4))
    moreover from ind su have "truthy ?A1 \<longrightarrow> last (statusMessages (config (self s1)))
                = last (statusMessages (config (self s2)))" by blast
    ultimately show ?thesis by blast
  qed
  have partC: "\<exists>d1 d2. timers s1 = timers st
                 @ [(Suc (issued st), d1), (Suc (Suc (issued st)), d2)]
              \<and> refreshEveryTimeout (self s1) = Some (Suc (issued st))
              \<and> refreshAtTimeout (self s1) = Some (Suc (Suc (issued st)))"
    if v: "?E1 = Some e" "parseInt e = Finite n" "0 < n" "?A1 = Some a" "length a = 4"
      "parseInt (substring 0 2 a) = Finite h" "0 \<le> h" "h \<le> 23"
      "parseInt (substring 2 4 a) = Finite m" "0 \<le> m" "m \<le> 59"
  proof -
    have "e \<noteq> []" using v(2) parseInt_Nil by auto
    then have trE: "truthy ?E1" using v(1) by (simp add: truthy_def)
    have trA: "truthy ?A1" using v(4,5) by (auto simp add: truthy_def)
    have "setupRefreshEvery (Some e) st = Inr (b1, t1)" using e1 trE v(1) by simp
    moreover have "\<not> isNaN (parseInt (ToString (Some e)))"
      "\<not> num_le (parseInt (ToString (Some e))) (Finite 0)"
      using v(2,3) by (simp_all add: ToString_def isNaN_def num_le_def)
    ultimately have t1: "timers t1 = timers st
            @ [(Suc (issued st), num_mult (parseInt (ToString (Some e))) (Finite 1000))]"
      "issued t1 = Suc (issued st)" "refreshEveryTimeout (self t1) = Some (Suc (issued st))"
      using setupRefreshEvery_valid [of "Some e" st] by auto
    have hm: "h < 24" "m < 60" using v by simp_all
    have "setupRefreshAt win1 (Some a) t1 = Inr (b1', u1)" using a1 trA v(4) by simp
    then have "\<exists>d2. timers u1 = timers t1 @ [(Suc (issued t1), d2)]
        \<and> refreshAtTimeout (self u1) = Some (Suc (issued t1))
        \<and> refreshEveryTimeout (self u1) = refreshEveryTimeout (self t1)"
      using setupRefreshAt_valid [OF v(5,6,7) hm(1) v(9,10) hm(2), of win1 t1]
      by (auto simp add: Let_def)
    moreover have "s1 = u1" using trE by (simp add: s1_def)
    ultimately show ?thesis using t1 by auto
  qed
  have "init win1 st = Inr (config (self s1), s1)" "init win2 st = Inr (config (self s2), s2)"
    using i1 i2 by (simp_all add: s1_def s2_def)
  with partA partB partC show ?thesis by blast
qed

theorem directives_independent_witness:
  "wellFormed freshState
   \<and> (\<exists>c1 s1 c2 s2.
        init (exampleWindow [(''refresh_every'', ''60''), (''refresh_at'', ''1500'')]) freshState
          = Inr (c1, s1)
      \<and> init (exampleWindow [(''refresh_every'', ''60'')]) freshState = Inr (c2, s2)
      \<and> refreshEvery c1 = Some (Finite 60) \<and> refreshEvery c2 = Some (Finite 60)
      \<and> timerDelay (refreshEveryTimeout (self s1)) s1 = Some (Finite 60000)
      \<and> timerDelay (refreshEveryTimeout (self s2)) s2 = Some (Finite 60000)
      \<and> timers s1 = [(1, Finite 60000), (2, Finite 18000000)])
   \<and> (\<exists>c1 s1 c2 s2.
        init (exampleWindow [(''refresh_every'', ''60''), (''refresh_at'', ''1500'')]) freshState
          = Inr (c1, s1)
      \<and> init (exampleWindow [(''refresh_every'', ''abc''), (''refresh_at'', ''1500'')]) freshState
          = Inr (c2, s2)
      \<and> refreshAt c1 = refreshAt c2
      \<and> timerDelay (refreshAtTimeout (self s1)) s1 = Some (Finite 18000000)
      \<and> timerDelay (refreshAtTimeout (self s2)) s2 = Some (Finite 18000000)
      \<and> last (statusMessages c1) = last (statusMessages c2))"
  using directives_independent
    [of freshState "exampleWindow [(''refresh_every'', ''60''), (''refresh_at'', ''1500'')]"
        "exampleWindow [(''refresh_every'', ''60'')]" "js ''60''" 60 "js ''1500''" 15 0]
    directives_independent
    [of freshState "exampleWindow [(''refresh_every'', ''60''), (''refresh_at'', ''1500'')]"
        "exampleWindow [(''refresh_every'', ''abc''), (''refresh_at'', ''1500'')]"]
  by (simp add: eval_defs date_defs wellFormed_def issuedHandle_def timerDelay_def)

subsection \<open>Decimal digits, parseInt and toString\<close>

lemma digit_cases: "d < 10 \<Longrightarrow> d \<in> {0, 1, 2, 3, 4, 5, 6, 7, 8, 9 :: nat}"
  by auto

lemma digitValue_digitChar: "d < 10 \<Longrightarrow> digitValue (digitChar d) = Some d"
  by (drule digit_cases) (auto simp add: digitValue_def digitChar_def)

lemma isWhiteSpace_digitChar: "d < 10 \<Longrightarrow> \<not> isWhiteSpace (digitChar d)"
  by (drule digit_cases) (auto simp add: isWhiteSpace_def digitChar_def)

lemma digitChar_not_sign: "d < 10 \<Longrightarrow> digitChar d \<noteq> 0x2D \<and> digitChar d \<noteq> 0x2B"
  by (drule digit_cases) (auto simp add: digitChar_def)

lemma digitChar_zero: "d < 10 \<Longrightarrow> digitChar d = 0x30 \<longleftrightarrow> d = 0"
  by (drule digit_cases) (auto simp add: digitChar_def)

lemma digitsOf_digits: "c \<in> set (digitsOf n) \<Longrightarrow> \<exists>d<10. c = digitChar d"
proof (induction n rule: digitsOf.induct)
  case (1 n)
  show ?case
  proof (cases "n < 10")
    case True
    with "1.prems" show ?thesis by (auto simp add: digitsOf.simps [of n])
  next
    case False
    with "1.prems" have "c \<in> set (digitsOf (n div 10)) \<or> c = digitChar (n mod 10)"
      by (auto simp add: digitsOf.simps [of n])
    then show ?thesis
    proof
      assume "c \<in> set (digitsOf (n div 10))"
      with "1.IH" False show ?thesis by simp
    next
      assume "c = digitChar (n mod 10)"
      moreover have "n mod 10 < 10" by simp
      ultimately show ?thesis by blast
    qed
  qed
qed

lemma digitsOf_not_Nil: "digitsOf n \<noteq> []"
  by (simp add: digitsOf.simps [of n])

lemma hd_digitsOf: "0 < n \<Longrightarrow> \<exists>d. 0 < d \<and> d < 10 \<and> hd (digitsOf n) = digitChar d"
proof (induction n rule: digitsOf.induct)
  case (1 n)
  show ?case
  proof (cases "n < 10")
    case True
    with "1.prems" show ?thesis by (auto simp add: digitsOf.simps [of n])
  next
    case False
    then have "0 < n div 10" by simp
    with "1.IH" False obtain d where "0 < d" "d < 10" "hd (digitsOf (n div 10)) = digitChar d"
      by auto
    then show ?thesis using False digitsOf_not_Nil [of "n div 10"]
      by (auto simp add: digitsOf.simps [of n])
  qed
qed

lemma digitsValue_snoc:
  "digitsValue R (Z @ [c]) = digitsValue R Z * R + (case digitValue c of Some d \<Rightarrow> d | None \<Rightarrow> 0)"
  by (simp add: digitsValue_def)

lemma digitsValue_digitsOf: "digitsValue 10 (digitsOf n) = n"
proof (induction n rule: digitsOf.induct)
  case (1 n)
  show ?case
  proof (cases "n < 10")
    case True
    then show ?thesis
      by (simp add: digitsOf.simps [of n] digitsValue_def digitValue_digitChar)
  next
    case False
    with "1.IH" have "digitsValue 10 (digitsOf (n div 10)) = n div 10" by simp
    then show ?thesis using False
      by (simp add: digitsOf.simps [of n] digitsValue_snoc digitValue_digitChar)
  qed
qed

lemma takeWhile_digitsOf: "takeWhile (isRadixDigit 10) (digitsOf n) = digitsOf n"
proof -
  have "\<forall>c \<in> set (digitsOf n). isRadixDigit 10 c"
  proof
    fix c assume "c \<in> set (digitsOf n)"
    then obtain d where "d < 10" "c = digitChar d" using digitsOf_digits by blast
    then show "isRadixDigit 10 c" by (simp add: isRadixDigit_def digitValue_digitChar)
  qed
  then show ?thesis by (simp add: takeWhile_eq_all_conv)
qed

lemma parseInt_digitsOf:
  assumes "0 < n"
  shows "parseInt (digitsOf n) = toNumber (int n)"
proof -
  obtain d where d: "0 < d" "d < 10" "hd (digitsOf n) = digitChar d"
    using hd_digitsOf [OF assms] by blast
  obtain cs where cs: "digitsOf n = digitChar d # cs"
    using d(3) digitsOf_not_Nil [of n] by (cases "digitsOf n") auto
  have ws: "dropWhile isWhiteSpace (digitsOf n) = digitsOf n"
    using isWhiteSpace_digitChar [OF d(2)] by (simp add: cs)
  have sg: "stripSign (digitsOf n) = (False, digitsOf n)"
    using digitChar_not_sign [OF d(2)] by (simp add: cs)
  have "digitChar d \<noteq> 0x30" using digitChar_zero [OF d(2)] d(1) by simp
  then have px: "stripPrefix (digitsOf n) = (10, digitsOf n)"
    by (cases cs) (simp_all add: cs)
  show ?thesis
    by (simp add: parseInt_def ws sg px takeWhile_digitsOf digitsOf_not_Nil digitsValue_digitsOf)
qed

lemma bitlen_lower: "0 < n \<Longrightarrow> 2 ^ (bitlen n - 1) \<le> n"
proof (induction n rule: bitlen.induct)
  case (1 n)
  show ?case
  proof (cases "n div 2 = 0")
    case True
    with "1.prems" show ?thesis by (simp add: bitlen.simps [of n] bitlen.simps [of 0])
  next
    case False
    then have pos: "0 < n div 2" by simp
    with "1.IH" "1.prems" have ih: "2 ^ (bitlen (n div 2) - 1) \<le> n div 2" by simp
    have "0 < bitlen (n div 2)" using pos by (simp add: bitlen.simps [of "n div 2"])
    then have "bitlen n - 1 = Suc (bitlen (n div 2) - 1)"
      using "1.prems" by (simp add: bitlen.simps [of n])
    then have "(2::nat) ^ (bitlen n - 1) = 2 * 2 ^ (bitlen (n div 2) - 1)" by simp
    also have "\<dots> \<le> 2 * (n div 2)" using ih by simp
    also have "\<dots> \<le> n" by simp
    finally show ?thesis .
  qed
qed

lemma bitlen_gt: "2 ^ k \<le> n \<Longrightarrow> k < bitlen n"
proof (induction k arbitrary: n)
  case 0
  then show ?case by (simp add: bitlen.simps [of n])
next
  case (Suc k)
  then have "2 ^ k \<le> n div 2" by simp
  then have "k < bitlen (n div 2)" by (rule Suc.IH)
  moreover have "0 < (2::nat) ^ Suc k" by simp
  with Suc.prems have "n \<noteq> 0" by linarith
  ultimately show ?case by (simp add: bitlen.simps [of n])
qed

lemma roundNat_ge:
  assumes "53 \<le> k" "2 ^ k \<le> y"
  shows "2 ^ k \<le> roundNat y"
proof -
  define e where "e = bitlen y - 53"
  define q where "q = y div 2 ^ e"
  have b: "k < bitlen y" using assms(2) by (rule bitlen_gt)
  have "0 < y" using assms(2) by (simp add: order.strict_trans2 [of 0 "2 ^ k"])
  then have "2 ^ (bitlen y - 1) \<le> y" by (rule bitlen_lower)
  moreover have bl: "bitlen y - 1 = 52 + e" using b assms(1) by (simp add: e_def)
  ultimately have "2 ^ 52 * 2 ^ e \<le> y" by (simp add: power_add)
  then have q: "2 ^ 52 \<le> q"
    unfolding q_def by (simp add: less_eq_div_iff_mult_less_eq)
  have "k \<le> 52 + e" using b bl by simp
  then have "(2::nat) ^ k \<le> 2 ^ (52 + e)" by (intro power_increasing) simp_all
  also have "\<dots> = 2 ^ 52 * 2 ^ e" by (simp add: power_add)
  also have "\<dots> \<le> q * 2 ^ e" using q by simp
  finally have lo: "2 ^ k \<le> q * 2 ^ e" .
  have "q * 2 ^ e \<le> (q + 1) * 2 ^ e" by simp
  with lo have hi: "2 ^ k \<le> (q + 1) * 2 ^ e" by (rule order_trans)
  have "(2::nat) ^ 53 \<le> 2 ^ k" using assms(1) by (intro power_increasing) simp_all
  with assms(2) have "\<not> y < 2 ^ 53" by simp
  then show ?thesis
    using lo hi by (simp add: roundNat_def Let_def e_def [symmetric] q_def [symmetric])
qed







lemma digitsOf_times_ten: "0 < s \<Longrightarrow> digitsOf (s * 10) = digitsOf s @ [0x30]"
  by (simp add: digitsOf.simps [of "s * 10"] digitChar_def)

lemma digitsOf_shift: "0 < s \<Longrightarrow> digitsOf (s * 10 ^ e) = digitsOf s @ replicate e 0x30"
proof (induction e)
  case 0
  then show ?case by simp
next
  case (Suc e)
  then have "0 < s * 10 ^ e" by simp
  then have "digitsOf (s * 10 ^ e * 10) = digitsOf (s * 10 ^ e) @ [0x30]"
    by (rule digitsOf_times_ten)
  moreover have "s * 10 ^ Suc e = s * 10 ^ e * 10" by simp
  moreover have "replicate (Suc e) (0x30 :: 16 word) = replicate e 0x30 @ [0x30]"
    by (simp add: replicate_append_same)
  ultimately show ?case using Suc by (simp only: append_assoc)
qed






lemma toNumber_overflow: "2 ^ 1024 \<le> y \<Longrightarrow> toNumber (int y) = PosInf"
  using roundNat_ge [of 1024 y] by (simp add: toNumber_def Let_def)

lemma ten_309: "(2::nat) ^ 1024 \<le> 10 ^ 309"
  by simp

lemma parseInt_overflow: "parseInt (digitsOf (10 ^ 309)) = PosInf"
  using parseInt_digitsOf [of "10 ^ 309"] toNumber_overflow [OF ten_309] by simp





lemma at_step_frame:
  assumes "(if truthy v then setupRefreshAt win v t else Inr (False, t)) = Inr (b, u)"
  shows "refreshEvery (config (self u)) = refreshEvery (config (self t))
    \<and> refreshEveryTimeout (self u) = refreshEveryTimeout (self t)
    \<and> (timers u = timers t
        \<or> (\<exists>d. timers u = timers t @ [(Suc (issued t), d)]
              \<and> refreshAtTimeout (self u) = Some (Suc (issued t))))"
proof (cases "truthy v")
  case False
  with assms show ?thesis by simp
next
  case True
  then obtain s where "v = Some s" using truthy_Some by blast
  with True assms have s: "setupRefreshAt win (Some s) t = Inr (b, u)" by simp
  show ?thesis
    using setupRefreshAt_effect [OF s] by (cases b) (auto simp add: pushStatus_fields)
qed

lemma positive_number:
  "\<not> isNaN x \<Longrightarrow> \<not> num_le x (Finite 0) \<Longrightarrow> x = PosInf \<or> (\<exists>n. x = Finite n \<and> 0 < n)"
  by (cases x) (auto simp add: isNaN_def num_le_def)

lemma param_names: "js ''refresh_at'' \<noteq> js ''refresh_every''"
  by (simp add: js_def)

subsection \<open>setupRefreshEvery\<close>

text \<open>
  C2, as the claim states it, fails in two places. With \<open>?refresh_every=&refresh_at=1430\<close>
  the parameter is present with a non-numeric (empty) value, and \<open>init()\<close> appends no
  invalid-input message for it: \<open>if (refreshEvery)\<close> takes the empty string as false and
  \<open>setupRefreshEvery\<close> is not called. With \<open>refresh_every\<close> the digit 1 followed by 309
  zeros, \<open>parseInt\<close> gives \<open>Infinity\<close>, which passes \<open>isNaN\<close> and \<open>seconds <= 0\<close>, so
  \<open>config.refreshEvery\<close> is set to \<open>Infinity\<close>, which is not an integer.
\<close>

theorem refresh_every_counterexample:
  "getQueryParam (exampleWindow [(''refresh_every'', []), (''refresh_at'', ''1430'')])
      (js ''refresh_every'') = Some []
   \<and> isNaN (parseInt [])
   \<and> (case init (exampleWindow [(''refresh_every'', []), (''refresh_at'', ''1430'')]) freshState
       of Inr (c, st') \<Rightarrow> statusMessages c | Inl e \<Rightarrow> [])
      = [atMsg (Finite 14) (Finite 30)]
   \<and> atMsg (Finite 14) (Finite 30) \<noteq> invalidEveryMsg
   \<and> digitsOf (10 ^ 309) = 0x31 # replicate 309 0x30
   \<and> (case init overflowWindow freshState
       of Inr (c, st') \<Rightarrow> refreshEvery c | Inl e \<Rightarrow> None)
      = Some PosInf"
proof (intro conjI)
  show "getQueryParam (exampleWindow [(''refresh_every'', []), (''refresh_at'', ''1430'')])
      (js ''refresh_every'') = Some []"
    by (simp add: getQueryParam_def exampleWindow_def js_def)
  show "isNaN (parseInt [])" by (simp add: parseInt_Nil isNaN_def)
  show "(case init (exampleWindow [(''refresh_every'', []), (''refresh_at'', ''1430'')]) freshState
       of Inr (c, st') \<Rightarrow> statusMessages c | Inl e \<Rightarrow> [])
      = [atMsg (Finite 14) (Finite 30)]"
    by (simp add: eval_defs date_defs)
  show "atMsg (Finite 14) (Finite 30) \<noteq> invalidEveryMsg"
    by (simp add: atMsg_def invalidEveryMsg_def js_def)
  show "digitsOf (10 ^ 309) = 0x31 # replicate 309 0x30"
  proof -
    have one: "digitsOf 1 = [0x31]" by (subst digitsOf.simps) (simp add: digitChar_def)
    have "digitsOf (1 * 10 ^ 309) = digitsOf 1 @ replicate 309 0x30"
      by (rule digitsOf_shift) simp
    then show ?thesis by (simp only: one nat_mult_1 append.simps)
  qed
  show "(case init overflowWindow freshState
       of Inr (c, st') \<Rightarrow> refreshEvery c | Inl e \<Rightarrow> None)
      = Some PosInf"
    using parseInt_overflow
    by (simp add: init_def getQueryParam_def overflowWindow_def exampleWindow_def truthy_def
        digitsOf_not_Nil param_names
        setupRefreshEvery_def ToString_def isNaN_def num_le_def Let_def
        upd_defs setTimeout_def freshState_def newPageRefresh_def)
qed

text \<open>
  C2, amended. For every \<open>refresh_every\<close> value that is present and not empty, and that
  \<open>parseInt\<close> reads as NaN or as a number \<open>\<le> 0\<close>, \<open>init()\<close> leaves \<open>config.refreshEvery\<close>
  and \<open>refreshEveryTimeout\<close> as they were, arms no timer but the one of \<open>refresh_at\<close> (if
  any), and the first status message it appends is the invalid-input message. When
  \<open>init()\<close> sets \<open>config.refreshEvery\<close>, the value is a positive integer or \<open>Infinity\<close>.
\<close>

theorem refresh_every_invalid:
  "(getQueryParam win (js ''refresh_every'') = Some s \<and> s \<noteq> []
      \<and> (isNaN (parseInt s) \<or> num_le (parseInt s) (Finite 0))
    \<longrightarrow> (\<exists>c st'. init win st = Inr (c, st')
          \<and> refreshEvery c = refreshEvery (config (self st))
          \<and> refreshEveryTimeout (self st') = refreshEveryTimeout (self st)
          \<and> (timers st' = timers st
              \<or> (\<exists>d. timers st' = timers st @ [(Suc (issued st), d)]
                    \<and> refreshAtTimeout (self st') = Some (Suc (issued st))))
          \<and> take (Suc (length (statusMessages (config (self st))))) (statusMessages c)
              = statusMessages (config (self st)) @ [invalidEveryMsg]))
   \<and> (init win st = Inr (c, st') \<and> refreshEvery (config (self st)) = None
        \<and> refreshEvery c = Some x
    \<longrightarrow> x = PosInf \<or> (\<exists>n. x = Finite n \<and> 0 < n))"
proof -
  let ?E = "getQueryParam win (js ''refresh_every'')"
  let ?A = "getQueryParam win (js ''refresh_at'')"
  let ?old = "statusMessages (config (self st))"
  obtain b1 t1 b2 u me ma where
    e: "(if truthy ?E then setupRefreshEvery ?E st else Inr (False, st)) = Inr (b1, t1)" and
    a: "(if truthy ?A then setupRefreshAt win ?A t1 else Inr (False, t1)) = Inr (b2, u)" and
    i: "init win st =
          Inr (config (self (if \<not> truthy ?E \<and> \<not> truthy ?A
                             then pushStatus noParamsMsg u else u)),
               (if \<not> truthy ?E \<and> \<not> truthy ?A then pushStatus noParamsMsg u else u))" and
    m2: "statusMessages (config (self u)) = statusMessages (config (self t1))
           @ (if truthy ?A then [ma] else [])"
    using init_steps_msgs [of win st] by blast
  note fr = at_step_frame [OF a]
  have part1: "\<exists>c st'. init win st = Inr (c, st')
          \<and> refreshEvery c = refreshEvery (config (self st))
          \<and> refreshEveryTimeout (self st') = refreshEveryTimeout (self st)
          \<and> (timers st' = timers st
              \<or> (\<exists>d. timers st' = timers st @ [(Suc (issued st), d)]
                    \<and> refreshAtTimeout (self st') = Some (Suc (issued st))))
          \<and> take (Suc (length ?old)) (statusMessages c) = ?old @ [invalidEveryMsg]"
    if v: "?E = Some s" "s \<noteq> []" "isNaN (parseInt s) \<or> num_le (parseInt s) (Finite 0)"
  proof -
    have tr: "truthy ?E" using v by (simp add: truthy_def)
    have "setupRefreshEvery ?E st = Inr (False, pushStatus invalidEveryMsg st)"
      using v(3) by (intro setupRefreshEvery_invalid) (simp add: v(1) ToString_def)
    with e tr have t1: "t1 = pushStatus invalidEveryMsg st" by simp
    have "statusMessages (config (self u)) = ?old @ invalidEveryMsg # (if truthy ?A then [ma] else [])"
      using m2 by (simp add: t1 pushStatus_fields)
    then have "take (Suc (length ?old)) (statusMessages (config (self u)))
        = ?old @ [invalidEveryMsg]"
      by simp
    then show ?thesis using i tr fr by (simp add: t1 pushStatus_fields)
  qed
  have part2: "x = PosInf \<or> (\<exists>n. x = Finite n \<and> 0 < n)"
    if r: "init win st = Inr (c, st')" "refreshEvery (config (self st)) = None"
      "refreshEvery c = Some x"
  proof -
    from r(1) i have "refreshEvery c = refreshEvery (config (self u))"
      by (auto simp add: pushStatus_fields split: if_splits)
    with fr r(3) have x: "refreshEvery (config (self t1)) = Some x" by simp
    with r(2) e have tr: "truthy ?E" by (auto split: if_splits)
    with e have s: "setupRefreshEvery ?E st = Inr (b1, t1)" by simp
    note eff = setupRefreshEvery_effect [OF s]
    have b1 using eff x r(2) by (cases b1) (auto simp add: pushStatus_fields)
    with eff x have "x = parseInt (ToString ?E)" "\<not> isNaN (parseInt (ToString ?E))"
      "\<not> num_le (parseInt (ToString ?E)) (Finite 0)" by simp_all
    then show ?thesis using positive_number by blast
  qed
  from part1 part2 show ?thesis by blast
qed

theorem refresh_every_invalid_witness:
  "getQueryParam (exampleWindow [(''refresh_every'', ''abc'')]) (js ''refresh_every'')
      = Some (js ''abc'')
   \<and> js ''abc'' \<noteq> [] \<and> isNaN (parseInt (js ''abc''))
   \<and> init (exampleWindow [(''refresh_every'', ''abc'')]) freshState
       = Inr (\<lparr>refreshEvery = None, refreshAt = None, statusMessages = [invalidEveryMsg]\<rparr>,
              pushStatus invalidEveryMsg freshState)
   \<and> (\<exists>c st'. init (exampleWindow [(''refresh_every'', ''30'')]) freshState = Inr (c, st')
          \<and> refreshEvery c = Some (Finite 30))"
  using refresh_every_invalid
    [of "exampleWindow [(''refresh_every'', ''abc'')]" "js ''abc''" freshState]
    refresh_every_invalid
    [of "exampleWindow [(''refresh_every'', ''30'')]" _ freshState
        "\<lparr>refreshEvery = Some (Finite 30), refreshAt = None,
          statusMessages = [everyMsg (Finite 30)]\<rparr>"
        "\<lparr>self = \<lparr>refreshEveryTimeout = Some 1, refreshAtTimeout = None,
            config = \<lparr>refreshEvery = Some (Finite 30), refreshAt = None,
              statusMessages = [everyMsg (Finite 30)]\<rparr>\<rparr>,
          timers = [(1, Finite 30000)], issued = 1\<rparr>" "Finite 30"]
  by (simp add: eval_defs)




subsection \<open>cancel\<close>

text \<open>
  C8. \<open>cancel()\<close> never raises, and a second call changes nothing: the state after one
  call is a fixed point. With no timer armed (both handles \<open>null\<close>) the call leaves the
  state as it is. Both handles are \<open>null\<close> afterwards, for handles as \<open>setTimeout\<close>
  returns them (greater than zero).
\<close>

theorem cancel_idempotent:
  "\<exists>st1. cancel st = Inr ((), st1) \<and> cancel st1 = Inr ((), st1)
     \<and> (refreshEveryTimeout (self st) = None \<and> refreshAtTimeout (self st) = None
          \<longrightarrow> st1 = st)
     \<and> (refreshEveryTimeout (self st) \<noteq> Some 0 \<and> refreshAtTimeout (self st) \<noteq> Some 0
          \<longrightarrow> refreshEveryTimeout (self st1) = None \<and> refreshAtTimeout (self st1) = None)"
  by (auto simp add: cancel_def upd_defs truthyHandle_def Let_def split: option.split)

theorem cancel_idempotent_witness:
  "refreshEveryTimeout (self armedState) \<noteq> Some 0
   \<and> refreshAtTimeout (self armedState) \<noteq> Some 0
   \<and> (\<exists>st1. cancel armedState = Inr ((), st1) \<and> cancel st1 = Inr ((), st1)
          \<and> refreshEveryTimeout (self st1) = None \<and> refreshAtTimeout (self st1) = None)
   \<and> refreshEveryTimeout (self freshState) = None
   \<and> refreshAtTimeout (self freshState) = None
   \<and> cancel freshState = Inr ((), freshState)"
  using cancel_idempotent [of armedState] cancel_idempotent [of freshState]
  by (auto simp add: armedState_def freshState_def newPageRefresh_def)

text \<open>
  C9. \<open>cancel()\<close> leaves \<open>config\<close> (\<open>statusMessages\<close>, \<open>refreshEvery\<close>, \<open>refreshAt\<close>) as it
  was: of the object it changes the two timer handles only.
\<close>

theorem cancel_frame:
  "\<exists>st'. cancel st = Inr ((), st')
     \<and> statusMessages (config (self st')) = statusMessages (config (self st))
     \<and> refreshEvery (config (self st')) = refreshEvery (config (self st))
     \<and> refreshAt (config (self st')) = refreshAt (config (self st))
     \<and> self st' = (self st)\<lparr>refreshEveryTimeout := refreshEveryTimeout (self st'),
                            refreshAtTimeout := refreshAtTimeout (self st')\<rparr>"
  by (simp add: cancel_def upd_defs truthyHandle_def Let_def split: option.split)

end
